theory Spec2Isabelle
  imports Main
begin

section \<open>Python primitives used by the pipeline\<close>

text \<open>
  Texts are Python \<open>str\<close> values over code points below 256, one \<open>char\<close> per code point.
  Indices are Python integers: negative indices count from the end, and slices clamp.
\<close>

definition py_len :: "'a list \<Rightarrow> int" where
  "py_len xs = int (length xs)"

text \<open>The index adjustment of slices and of \<open>str.rfind\<close>: a negative index counts from
  the end and is clamped at 0; an index beyond the end is clamped at the length.\<close>

definition adjust_index :: "int \<Rightarrow> int \<Rightarrow> int" where
  "adjust_index n i = (if i < 0 then max 0 (i + n) else min i n)"

definition py_slice :: "'a list \<Rightarrow> int \<Rightarrow> int \<Rightarrow> 'a list" where
  "py_slice xs start end =
     (let n = py_len xs; s = adjust_index n start; e = adjust_index n end
      in take (nat (e - s)) (drop (nat s) xs))"


text \<open>\<open>str.isspace\<close> on one character, for code points below 256.\<close>

definition is_space :: "char \<Rightarrow> bool" where
  "is_space c = (of_char c \<in> {9, 10, 11, 12, 13, 28, 29, 30, 31, 32, 133, 160 :: nat})"

definition py_strip :: "string \<Rightarrow> string" where
  "py_strip s = rev (dropWhile is_space (rev (dropWhile is_space s)))"

text \<open>\<open>text.rfind(sub, start, end)\<close>: the highest index \<open>i\<close> with
  \<open>start \<le> i\<close>, \<open>i + len(sub) \<le> end\<close> (both adjusted) and \<open>text[i:i+len(sub)] == sub\<close>,
  or \<open>-1\<close>.\<close>

definition py_rfind :: "string \<Rightarrow> string \<Rightarrow> int \<Rightarrow> int \<Rightarrow> int" where
  "py_rfind text sub start end =
     (let n = py_len text; m = py_len sub;
          e = (if end > n then n else if end < 0 then max 0 (end + n) else end);
          s = (if start < 0 then max 0 (start + n) else start)
      in if e - s < m then -1
         else (case filter (\<lambda>i. take (length sub) (drop i text) = sub)
                      (rev [nat s ..< Suc (nat (e - m))]) of
                 [] \<Rightarrow> -1
               | i # _ \<Rightarrow> int i))"

section \<open>TextProcessor: chunking\<close>

definition sentence_enders :: "string list" where
  "sentence_enders =
     [[CHR ''.'', CHR '' ''], [CHR ''!'', CHR '' ''], [CHR ''?'', CHR '' ''],
      [CHR ''.'', CHR 0x0A], [CHR ''!'', CHR 0x0A], [CHR ''?'', CHR 0x0A]]"

text \<open>\<open>TextProcessor._find_sentence_boundary\<close>\<close>

definition find_sentence_boundary :: "string \<Rightarrow> int \<Rightarrow> int \<Rightarrow> int" where
  "find_sentence_boundary text start end =
     (let best_pos = fold (\<lambda>ender best_pos.
                        let pos = py_rfind text ender start end
                        in if pos > best_pos then pos + py_len ender else best_pos)
                      sentence_enders (-1)
      in if best_pos > start then best_pos
         else (let last_space = py_rfind text [CHR '' ''] start end
               in if last_space > start then last_space else end))"

text \<open>The end of the chunk that starts at \<open>start\<close>: the body of the loop of
  \<open>chunk_text\<close> up to the slice.\<close>

definition chunk_end :: "string \<Rightarrow> int \<Rightarrow> int \<Rightarrow> int" where
  "chunk_end text chunk_size start =
     (let end = start + chunk_size
      in if end < py_len text
         then (let search_start = max start (end - 100);
                   sentence_end = find_sentence_boundary text search_start end
               in if sentence_end > start then sentence_end else end)
         else end)"

text \<open>The \<open>while start < len(text)\<close> loop of \<open>chunk_text\<close>.\<close>

function chunk_loop :: "string \<Rightarrow> int \<Rightarrow> int \<Rightarrow> int \<Rightarrow> string list" where
  "chunk_loop text chunk_size overlap start =
     (if start < py_len text
      then (let end = chunk_end text chunk_size start;
                chunk = py_strip (py_slice text start end)
            in (if chunk \<noteq> [] then [chunk] else [])
               @ chunk_loop text chunk_size overlap (max (start + 1) (end - overlap)))
      else [])"
  by pat_completeness auto
termination
  by (relation "measure (\<lambda>(text, chunk_size, overlap, start). nat (py_len text - start))") auto

declare chunk_loop.simps [simp del]

text \<open>\<open>TextProcessor.chunk_text\<close>\<close>

definition chunk_text :: "string \<Rightarrow> int \<Rightarrow> int \<Rightarrow> string list" where
  "chunk_text text chunk_size overlap =
     (if text = [] \<or> py_len text \<le> chunk_size
      then (if text \<noteq> [] then [text] else [])
      else chunk_loop text chunk_size overlap 0)"

text \<open>The same loop with a bound on the number of iterations: \<open>None\<close> when the bound is
  used up before the loop condition fails.\<close>

fun chunk_loop_fuel :: "nat \<Rightarrow> string \<Rightarrow> int \<Rightarrow> int \<Rightarrow> int \<Rightarrow> string list option" where
  "chunk_loop_fuel 0 text chunk_size overlap start =
     (if start < py_len text then None else Some [])"
| "chunk_loop_fuel (Suc fuel) text chunk_size overlap start =
     (if start < py_len text
      then (let end = chunk_end text chunk_size start;
                chunk = py_strip (py_slice text start end)
            in (case chunk_loop_fuel fuel text chunk_size overlap
                       (max (start + 1) (end - overlap)) of
                  None \<Rightarrow> None
                | Some chunks \<Rightarrow> Some ((if chunk \<noteq> [] then [chunk] else []) @ chunks)))
      else Some [])"

definition chunk_text_fuel :: "nat \<Rightarrow> string \<Rightarrow> int \<Rightarrow> int \<Rightarrow> string list option" where
  "chunk_text_fuel fuel text chunk_size overlap =
     (if text = [] \<or> py_len text \<le> chunk_size
      then Some (if text \<noteq> [] then [text] else [])
      else chunk_loop_fuel fuel text chunk_size overlap 0)"

text \<open>The loop again, recording for every iteration its \<open>[start, end)\<close> span and whether
  the iteration appended a chunk.\<close>

function chunk_spans :: "string \<Rightarrow> int \<Rightarrow> int \<Rightarrow> int \<Rightarrow> ((int \<times> int) \<times> string) list" where
  "chunk_spans text chunk_size overlap start =
     (if start < py_len text
      then (let end = chunk_end text chunk_size start;
                chunk = py_strip (py_slice text start end)
            in ((start, end), chunk)
               # chunk_spans text chunk_size overlap (max (start + 1) (end - overlap)))
      else [])"
  by pat_completeness auto
termination
  by (relation "measure (\<lambda>(text, chunk_size, overlap, start). nat (py_len text - start))") auto

declare chunk_spans.simps [simp del]

text \<open>The spans walked by \<open>chunk_text\<close>, and the spans of the chunks it returns.\<close>

definition walked_spans :: "string \<Rightarrow> int \<Rightarrow> int \<Rightarrow> ((int \<times> int) \<times> string) list" where
  "walked_spans text chunk_size overlap =
     (if text = [] \<or> py_len text \<le> chunk_size
      then (if text \<noteq> [] then [((0, py_len text), text)] else [])
      else chunk_spans text chunk_size overlap 0)"

definition produced_spans :: "string \<Rightarrow> int \<Rightarrow> int \<Rightarrow> ((int \<times> int) \<times> string) list" where
  "produced_spans text chunk_size overlap =
     filter (\<lambda>(span, chunk). chunk \<noteq> []) (walked_spans text chunk_size overlap)"

definition covered :: "((int \<times> int) \<times> string) list \<Rightarrow> int \<Rightarrow> bool" where
  "covered spans p = list_ex (\<lambda>((s, e), chunk). s \<le> p \<and> p < e) spans"

section \<open>Values, errors and records\<close>

text \<open>The Python values that occur in chunk metadata and in search filters.\<close>

datatype pyval = VNone | VInt int | VStr string | VList "pyval list"

type_synonym meta_dict = "string \<rightharpoonup> pyval"

text \<open>Every exception of the source is a value; the handlers of the source catch
  \<open>Exception\<close>, so the models distinguish only where an exception comes from.\<close>

datatype error = BackendError | IndexError | TypeError | DatabaseError

text \<open>\<open>ContentItem\<close>: the attributes read or written by the pipeline. An absent text
  (\<open>None\<close>) and the empty text are both the empty list; the code tests them by
  truthiness only.\<close>

record content_item =
  item_id :: int
  title :: pyval
  url :: pyval
  author :: pyval
  published_date :: pyval
  category :: pyval
  language :: pyval
  content :: string
  cleaned_content :: string
  is_processed :: bool
  processing_status :: string

text \<open>\<open>ContentChunk\<close> rows.\<close>

record content_chunk =
  row_content_item_id :: int
  row_chunk_text :: string
  row_chunk_index :: nat
  row_vector_id :: string
  row_embedding_model :: string
  row_chunk_metadata :: meta_dict

record settings =
  settings_chunk_size :: int
  settings_chunk_overlap :: int
  settings_embedding_model :: string

text \<open>One search result: the dict with keys \<open>vector_id\<close>, \<open>score\<close>, \<open>metadata\<close>.\<close>

record 's hit =
  hit_vector_id :: string
  hit_score :: 's
  hit_metadata :: meta_dict

text \<open>The in-memory backend: the library's flat index, \<open>id_map\<close> from index rows to
  vector ids, and the metadata of every vector id.\<close>

record 'i faiss_db =
  faiss_index :: 'i
  id_map :: "int \<rightharpoonup> string"
  faiss_metadata :: "string \<rightharpoonup> meta_dict"

datatype 'i vector_db = Faiss "'i faiss_db" | Chroma | Pinecone | NotInitialized

datatype embedding_backend = OpenAI | SentenceTransformer

text \<open>The agent with what it has written so far: vectors sent to a remote store and
  committed chunk rows.\<close>

record ('i, 'v) system =
  embedding_model :: embedding_backend
  vector_db :: "'i vector_db"
  remote_vectors :: "(string \<times> 'v \<times> meta_dict) list"
  chunk_table :: "content_chunk list"

datatype chroma_cond = In "pyval list" | Eq pyval

text \<open>The collaborators outside the repository, as the code calls them. Each call
  either raises or returns. \<open>faiss_add\<close> is \<open>normalize_L2\<close> followed by \<open>index.add\<close>;
  \<open>faiss_search\<close> is \<open>normalize_L2\<close> followed by \<open>index.search\<close>, returning
  \<open>zip(scores[0], indices[0])\<close>; \<open>chroma_query\<close> returns the first rows of
  \<open>ids\<close>, \<open>distances\<close> and \<open>metadatas\<close>; \<open>commit\<close> tells whether committing the given
  pending rows succeeds.\<close>

record ('i, 'v, 's) library =
  openai_create :: "string list \<Rightarrow> error + 'v list"
  st_encode :: "string list \<Rightarrow> error + 'v list"
  faiss_ntotal :: "'i \<Rightarrow> int"
  faiss_add :: "'i \<Rightarrow> 'v \<Rightarrow> error + 'i"
  faiss_search :: "'i \<Rightarrow> 'v \<Rightarrow> int \<Rightarrow> error + ('s \<times> int) list"
  chroma_add :: "string \<Rightarrow> 'v \<Rightarrow> meta_dict \<Rightarrow> error option"
  chroma_query :: "'v \<Rightarrow> int \<Rightarrow> (string \<times> chroma_cond) list option
                    \<Rightarrow> error + (string list \<times> 's list \<times> meta_dict list)"
  pinecone_upsert :: "string \<Rightarrow> 'v \<Rightarrow> meta_dict \<Rightarrow> error option"
  pinecone_query :: "'v \<Rightarrow> int \<Rightarrow> (string \<times> pyval) list option \<Rightarrow> error + 's hit list"
  commit :: "content_chunk list \<Rightarrow> bool"

section \<open>VectorStorageAgent: embeddings\<close>

datatype event = ApiCall "string list" | Sleep

definition batch_size :: nat where
  "batch_size = 100"

text \<open>\<open>range(0, n, step)\<close>\<close>

definition py_range :: "nat \<Rightarrow> nat \<Rightarrow> nat list" where
  "py_range n step = map (\<lambda>j. j * step) [0 ..< (n + step - 1) div step]"

text \<open>The body of the \<open>for i in range(0, len(texts), batch_size)\<close> loop of
  \<open>_generate_openai_embeddings\<close>, with the calls and pauses it makes.\<close>

fun openai_batches ::
  "(string list \<Rightarrow> error + 'v list) \<Rightarrow> string list \<Rightarrow> nat list \<Rightarrow> 'v list \<Rightarrow> event list
     \<Rightarrow> (error + 'v list) \<times> event list" where
  "openai_batches create texts [] embeddings trace = (Inr embeddings, trace)"
| "openai_batches create texts (i # rest) embeddings trace =
     (let batch = take batch_size (drop i texts)
      in case create batch of
           Inl e \<Rightarrow> (Inl e, trace @ [ApiCall batch])
         | Inr batch_embeddings \<Rightarrow>
             openai_batches create texts rest (embeddings @ batch_embeddings)
               (trace @ [ApiCall batch]
                  @ (if length texts > batch_size then [Sleep] else [])))"

definition generate_openai_embeddings ::
  "(string list \<Rightarrow> error + 'v list) \<Rightarrow> string list \<Rightarrow> (error + 'v list) \<times> event list" where
  "generate_openai_embeddings create texts =
     openai_batches create texts (py_range (length texts) batch_size) [] []"

definition calls :: "event list \<Rightarrow> string list list" where
  "calls trace = concat (map (\<lambda>ev. case ev of ApiCall batch \<Rightarrow> [batch] | Sleep \<Rightarrow> []) trace)"

text \<open>\<open>_generate_embeddings\<close>\<close>

definition generate_embeddings ::
  "('i, 'v, 's) library \<Rightarrow> ('i, 'v) system \<Rightarrow> string list \<Rightarrow> error + 'v list" where
  "generate_embeddings lib sys texts =
     (if embedding_model sys = OpenAI
      then fst (generate_openai_embeddings (openai_create lib) texts)
      else st_encode lib texts)"

section \<open>VectorStorageAgent: storing and indexing\<close>

text \<open>\<open>str\<close> of an integer.\<close>

fun str_nat :: "nat \<Rightarrow> string" where
  "str_nat n = (if n < 10 then [char_of (48 + n)]
                else str_nat (n div 10) @ [char_of (48 + n mod 10)])"

declare str_nat.simps [simp del]

definition str_int :: "int \<Rightarrow> string" where
  "str_int i = (if i < 0 then CHR ''-'' # str_nat (nat (- i)) else str_nat (nat i))"

text \<open>\<open>len(s.split())\<close>: the number of maximal runs of non-whitespace characters.\<close>

fun count_words :: "bool \<Rightarrow> string \<Rightarrow> nat" where
  "count_words in_word [] = 0"
| "count_words in_word (c # cs) =
     (if is_space c then count_words False cs
      else (if in_word then 0 else 1) + count_words True cs)"

text \<open>\<open>_chunk_content\<close>: each chunk is its text with its metadata.\<close>

definition chunk_content :: "settings \<Rightarrow> content_item \<Rightarrow> (string \<times> meta_dict) list" where
  "chunk_content cfg content_item =
     (let content = (if cleaned_content content_item \<noteq> [] then cleaned_content content_item
                     else content content_item)
      in if content = [] then []
         else (let text_chunks = chunk_text content (settings_chunk_size cfg)
                                   (settings_chunk_overlap cfg)
               in map (\<lambda>(i, chunk).
                        (chunk,
                         [''content_item_id'' \<mapsto> VInt (item_id content_item),
                          ''chunk_index'' \<mapsto> VInt (int i),
                          ''title'' \<mapsto> title content_item,
                          ''url'' \<mapsto> url content_item,
                          ''author'' \<mapsto> author content_item,
                          ''published_date'' \<mapsto> published_date content_item,
                          ''category'' \<mapsto> category content_item,
                          ''word_count'' \<mapsto> VInt (int (count_words False chunk)),
                          ''language'' \<mapsto> language content_item]))
                    (List.enumerate 0 text_chunks)))"

text \<open>\<open>_store_faiss_vector\<close>\<close>

definition store_faiss_vector ::
  "('i, 'v, 's) library \<Rightarrow> 'i faiss_db \<Rightarrow> string \<Rightarrow> 'v \<Rightarrow> meta_dict \<Rightarrow> error + 'i faiss_db" where
  "store_faiss_vector lib db vector_id embedding metadata =
     (let index_id = faiss_ntotal lib (faiss_index db)
      in case faiss_add lib (faiss_index db) embedding of
           Inl e \<Rightarrow> Inl e
         | Inr index' \<Rightarrow>
             Inr (db\<lparr>faiss_index := index',
                     id_map := (id_map db)(index_id \<mapsto> vector_id),
                     faiss_metadata := (faiss_metadata db)(vector_id \<mapsto> metadata)\<rparr>))"

text \<open>\<open>_store_vector\<close>, with \<open>_store_chroma_vector\<close> and \<open>_store_pinecone_vector\<close>.\<close>

definition store_vector ::
  "('i, 'v, 's) library \<Rightarrow> ('i, 'v) system \<Rightarrow> 'v \<Rightarrow> int \<Rightarrow> nat \<Rightarrow> meta_dict
     \<Rightarrow> error + (string \<times> ('i, 'v) system)" where
  "store_vector lib sys embedding content_item_id chunk_index metadata =
     (let vector_id = str_int content_item_id @ ''_'' @ str_nat chunk_index
      in case vector_db sys of
           Faiss db \<Rightarrow>
             (case store_faiss_vector lib db vector_id embedding metadata of
                Inl e \<Rightarrow> Inl e
              | Inr db' \<Rightarrow> Inr (vector_id, sys\<lparr>vector_db := Faiss db'\<rparr>))
         | Chroma \<Rightarrow>
             (case chroma_add lib vector_id embedding metadata of
                Some e \<Rightarrow> Inl e
              | None \<Rightarrow> Inr (vector_id,
                   sys\<lparr>remote_vectors := remote_vectors sys @ [(vector_id, embedding, metadata)]\<rparr>))
         | Pinecone \<Rightarrow>
             (case pinecone_upsert lib vector_id embedding metadata of
                Some e \<Rightarrow> Inl e
              | None \<Rightarrow> Inr (vector_id,
                   sys\<lparr>remote_vectors := remote_vectors sys @ [(vector_id, embedding, metadata)]\<rparr>))
         | NotInitialized \<Rightarrow> Inl TypeError)"

text \<open>The \<open>for i, (chunk, embedding) in enumerate(zip(chunks, embeddings))\<close> loop of
  \<open>process_content_item\<close>: the vectors stored so far stay stored when a later one fails.\<close>

fun store_chunks ::
  "('i, 'v, 's) library \<Rightarrow> settings \<Rightarrow> int \<Rightarrow> ('i, 'v) system \<Rightarrow> content_chunk list
     \<Rightarrow> (nat \<times> (string \<times> meta_dict) \<times> 'v) list
     \<Rightarrow> error option \<times> ('i, 'v) system \<times> content_chunk list" where
  "store_chunks lib cfg cid sys pending [] = (None, sys, pending)"
| "store_chunks lib cfg cid sys pending ((i, (chunk, metadata), embedding) # rest) =
     (case store_vector lib sys embedding cid i metadata of
        Inl e \<Rightarrow> (Some e, sys, pending)
      | Inr (vector_id, sys') \<Rightarrow>
          store_chunks lib cfg cid sys'
            (pending @ [\<lparr>row_content_item_id = cid, row_chunk_text = chunk,
                          row_chunk_index = i, row_vector_id = vector_id,
                          row_embedding_model = settings_embedding_model cfg,
                          row_chunk_metadata = metadata\<rparr>])
            rest)"

text \<open>\<open>process_content_item\<close>: the success flag, the system and the content item
  afterwards. Opening a session does no I/O and is not a point of failure here. The
  content item belongs to the caller, so a rollback of the local session leaves its
  attributes as assigned.\<close>

definition process_content_item ::
  "('i, 'v, 's) library \<Rightarrow> settings \<Rightarrow> ('i, 'v) system \<Rightarrow> content_item
     \<Rightarrow> bool \<times> ('i, 'v) system \<times> content_item" where
  "process_content_item lib cfg sys content_item =
     (let chunks = chunk_content cfg content_item
      in if chunks = [] then (False, sys, content_item)
         else (case generate_embeddings lib sys (map fst chunks) of
                 Inl e \<Rightarrow> (False, sys, content_item\<lparr>processing_status := ''failed''\<rparr>)
               | Inr embeddings \<Rightarrow>
                   if length embeddings \<noteq> length chunks then (False, sys, content_item)
                   else (case store_chunks lib cfg (item_id content_item) sys []
                                (List.enumerate 0 (zip chunks embeddings)) of
                           (Some e, sys', pending) \<Rightarrow> (False, sys', content_item)
                         | (None, sys', pending) \<Rightarrow>
                             (let content_item' = content_item\<lparr>is_processed := True,
                                                    processing_status := ''completed''\<rparr>
                              in if commit lib pending
                                 then (True, sys'\<lparr>chunk_table := chunk_table sys' @ pending\<rparr>,
                                       content_item')
                                 else (False, sys', content_item')))))"

section \<open>VectorStorageAgent: search\<close>

text \<open>\<open>_matches_filters\<close>: the filter dict as its items, in iteration order.\<close>

fun matches_filters :: "meta_dict \<Rightarrow> (string \<times> pyval) list \<Rightarrow> bool" where
  "matches_filters metadata [] = True"
| "matches_filters metadata ((key, value) # filters) =
     (case metadata key of
        None \<Rightarrow> False
      | Some found \<Rightarrow>
          (case value of
             VList values \<Rightarrow>
               if found \<notin> set values then False else matches_filters metadata filters
           | _ \<Rightarrow>
               if found \<noteq> value then False else matches_filters metadata filters))"

text \<open>\<open>_search_faiss\<close>\<close>

definition search_faiss ::
  "('i, 'v, 's) library \<Rightarrow> 'i faiss_db \<Rightarrow> 'v \<Rightarrow> int \<Rightarrow> (string \<times> pyval) list option
     \<Rightarrow> error + 's hit list" where
  "search_faiss lib db query_vector limit filters =
     (case faiss_search lib (faiss_index db) query_vector limit of
        Inl e \<Rightarrow> Inl e
      | Inr pairs \<Rightarrow>
          Inr (concat (map (\<lambda>(score, idx).
                 (case id_map db idx of
                    None \<Rightarrow> []
                  | Some vector_id \<Rightarrow>
                      (let metadata = (case faiss_metadata db vector_id of
                                         None \<Rightarrow> Map.empty
                                       | Some m \<Rightarrow> m)
                       in if (case filters of
                                None \<Rightarrow> False
                              | Some fs \<Rightarrow> fs \<noteq> [] \<and> \<not> matches_filters metadata fs)
                          then []
                          else [\<lparr>hit_vector_id = vector_id, hit_score = score,
                                  hit_metadata = metadata\<rparr>])))
               pairs)))"

text \<open>\<open>_build_chroma_filter\<close>\<close>

definition build_chroma_filter :: "(string \<times> pyval) list \<Rightarrow> (string \<times> chroma_cond) list" where
  "build_chroma_filter filters =
     map (\<lambda>(key, value). case value of VList values \<Rightarrow> (key, In values) | _ \<Rightarrow> (key, Eq value))
       filters"

text \<open>The \<open>for i in range(len(results['ids'][0]))\<close> loop of \<open>_search_chroma\<close>.\<close>

fun chroma_rows ::
  "string list \<Rightarrow> ('s :: {one, minus}) list \<Rightarrow> meta_dict list \<Rightarrow> nat list \<Rightarrow> error + 's hit list" where
  "chroma_rows ids distances metadatas [] = Inr []"
| "chroma_rows ids distances metadatas (i # rest) =
     (if i < length distances \<and> i < length metadatas
      then (case chroma_rows ids distances metadatas rest of
              Inl e \<Rightarrow> Inl e
            | Inr search_results \<Rightarrow>
                Inr (\<lparr>hit_vector_id = ids ! i, hit_score = 1 - distances ! i,
                      hit_metadata = metadatas ! i\<rparr> # search_results))
      else Inl IndexError)"

text \<open>\<open>_search_chroma\<close>\<close>

definition search_chroma ::
  "('i, 'v, 's :: {one, minus}) library \<Rightarrow> 'v \<Rightarrow> int \<Rightarrow> (string \<times> pyval) list option
     \<Rightarrow> error + 's hit list" where
  "search_chroma lib query_vector limit filters =
     (let where_filter = (case filters of
                            None \<Rightarrow> None
                          | Some fs \<Rightarrow> if fs \<noteq> [] then Some (build_chroma_filter fs) else None)
      in case chroma_query lib query_vector limit where_filter of
           Inl e \<Rightarrow> Inl e
         | Inr (ids, distances, metadatas) \<Rightarrow>
             chroma_rows ids distances metadatas [0 ..< length ids])"

text \<open>\<open>_search_pinecone\<close>, with \<open>_build_pinecone_filter\<close>.\<close>

definition search_pinecone ::
  "('i, 'v, 's) library \<Rightarrow> 'v \<Rightarrow> int \<Rightarrow> (string \<times> pyval) list option \<Rightarrow> error + 's hit list" where
  "search_pinecone lib query_vector limit filters =
     (let pinecone_filter = (case filters of
                               None \<Rightarrow> None
                             | Some fs \<Rightarrow> if fs \<noteq> [] then Some fs else None)
      in pinecone_query lib query_vector limit pinecone_filter)"

text \<open>The body of the \<open>try\<close> of \<open>search_similar_content\<close>.\<close>

definition search_attempt ::
  "('i, 'v, 's :: {one, minus}) library \<Rightarrow> ('i, 'v) system \<Rightarrow> string \<Rightarrow> int
     \<Rightarrow> (string \<times> pyval) list option \<Rightarrow> error + 's hit list" where
  "search_attempt lib sys query limit filters =
     (case generate_embeddings lib sys [query] of
        Inl e \<Rightarrow> Inl e
      | Inr query_embedding \<Rightarrow>
          (case query_embedding of
             [] \<Rightarrow> Inl IndexError
           | query_vector # _ \<Rightarrow>
               (case vector_db sys of
                  Faiss db \<Rightarrow> search_faiss lib db query_vector limit filters
                | Chroma \<Rightarrow> search_chroma lib query_vector limit filters
                | Pinecone \<Rightarrow> search_pinecone lib query_vector limit filters
                | NotInitialized \<Rightarrow> Inl TypeError)))"

text \<open>\<open>search_similar_content\<close>: every exception of the body becomes the empty list.\<close>

definition search_similar_content ::
  "('i, 'v, 's :: {one, minus}) library \<Rightarrow> ('i, 'v) system \<Rightarrow> string \<Rightarrow> int
     \<Rightarrow> (string \<times> pyval) list option \<Rightarrow> 's hit list" where
  "search_similar_content lib sys query limit filters =
     (case search_attempt lib sys query limit filters of
        Inl e \<Rightarrow> []
      | Inr results \<Rightarrow> results)"

section \<open>SummaryAgent: retrieval\<close>







section \<open>UserPreferenceAgent: updates\<close>

text \<open>The database operations of \<open>update_user_preferences\<close> that can raise.\<close>

datatype db_step = Query | SetAttr string | Commit

text \<open>The \<open>for key, value in updates.items()\<close> loop: a preference record is its
  attributes by name, \<open>hasattr\<close> is membership in its domain.\<close>

fun apply_updates ::
  "(db_step \<Rightarrow> bool) \<Rightarrow> (string \<rightharpoonup> 'a) \<Rightarrow> (string \<times> 'a) list \<Rightarrow> error + (string \<rightharpoonup> 'a)" where
  "apply_updates fails preferences [] = Inr preferences"
| "apply_updates fails preferences ((key, value) # rest) =
     (if preferences key \<noteq> None
      then (if fails (SetAttr key) then Inl DatabaseError
            else apply_updates fails (preferences(key \<mapsto> value)) rest)
      else apply_updates fails preferences rest)"

text \<open>\<open>update_user_preferences\<close>: the success flag and the table of preference
  records by user id afterwards; \<open>now\<close> is \<open>datetime.utcnow()\<close>.\<close>

definition update_user_preferences ::
  "(db_step \<Rightarrow> bool) \<Rightarrow> 'a \<Rightarrow> (int \<rightharpoonup> (string \<rightharpoonup> 'a)) \<Rightarrow> int \<Rightarrow> (string \<times> 'a) list
     \<Rightarrow> bool \<times> (int \<rightharpoonup> (string \<rightharpoonup> 'a))" where
  "update_user_preferences fails now table user_id updates =
     (if fails Query then (False, table)
      else (case table user_id of
              None \<Rightarrow> (False, table)
            | Some preferences \<Rightarrow>
                (case apply_updates fails preferences updates of
                   Inl e \<Rightarrow> (False, table)
                 | Inr preferences' \<Rightarrow>
                     if fails Commit then (False, table)
                     else (True, table(user_id \<mapsto> preferences'(''updated_at'' \<mapsto> now))))))"

section \<open>Notions used to state the properties\<close>

text \<open>The vectors of the batches, in order; a failed batch contributes none.\<close>

definition batch_results :: "(string list \<Rightarrow> error + 'v list) \<Rightarrow> string list list \<Rightarrow> 'v list" where
  "batch_results create batches =
     concat (map (\<lambda>batch. case create batch of Inl e \<Rightarrow> [] | Inr r \<Rightarrow> r) batches)"

text \<open>An index with zero entries: the in-memory backend has no row in \<open>id_map\<close>; a
  remote backend answers every query with no result, or raises.\<close>

definition index_is_empty :: "('i, 'v, 's) library \<Rightarrow> ('i, 'v) system \<Rightarrow> bool" where
  "index_is_empty lib sys =
     (case vector_db sys of
        Faiss db \<Rightarrow> id_map db = Map.empty
      | Chroma \<Rightarrow>
          (\<forall>q k w. case chroma_query lib q k w of
                      Inl e \<Rightarrow> True
                    | Inr (ids, distances, metadatas) \<Rightarrow> ids = [])
      | Pinecone \<Rightarrow>
          (\<forall>q k f. case pinecone_query lib q k f of
                      Inl e \<Rightarrow> True
                    | Inr matches \<Rightarrow> matches = [])
      | NotInitialized \<Rightarrow> True)"

text \<open>Some database operation of an update raises: the query, assigning an attribute
  the record has, or the commit.\<close>

definition database_fails ::
  "(db_step \<Rightarrow> bool) \<Rightarrow> (string \<rightharpoonup> 'a) \<Rightarrow> (string \<times> 'a) list \<Rightarrow> bool" where
  "database_fails fails preferences updates =
     (fails Query
      \<or> list_ex (\<lambda>(key, v). preferences key \<noteq> None \<and> fails (SetAttr key)) updates
      \<or> fails Commit)"

text \<open>The record an update is meant to leave: the entries of the update map whose key
  is an attribute of the record are applied, every other key is ignored, and
  \<open>updated_at\<close> is the time of the update.\<close>

definition expected_preferences ::
  "(string \<rightharpoonup> 'a) \<Rightarrow> (string \<times> 'a) list \<Rightarrow> 'a \<Rightarrow> (string \<rightharpoonup> 'a)" where
  "expected_preferences preferences updates now =
     (\<lambda>key. if key = ''updated_at'' then Some now
             else if preferences key \<noteq> None
                  then (case map_of updates key of Some v \<Rightarrow> Some v | None \<Rightarrow> preferences key)
                  else None)"

section \<open>Concrete collaborators and inputs\<close>

definition example_item :: "int \<Rightarrow> string \<Rightarrow> content_item" where
  "example_item n body =
     \<lparr>item_id = n, title = VStr ''title'', url = VStr ''url'', author = VNone,
      published_date = VNone, category = VStr ''Tech'', language = VStr ''en'',
      content = [], cleaned_content = body,
      is_processed = False, processing_status = ''processing''\<rparr>"

text \<open>A local embedding model that returns one vector per text, and an in-memory index
  that ranks row 1 before row 0.\<close>

definition example_library :: "(unit, unit, int) library" where
  "example_library =
     \<lparr>openai_create = (\<lambda>texts. Inl BackendError),
      st_encode = (\<lambda>texts. Inr (map (\<lambda>t. ()) texts)),
      faiss_ntotal = (\<lambda>index. 2),
      faiss_add = (\<lambda>index v. Inr index),
      faiss_search = (\<lambda>index q k. Inr [(9, 1), (8, 0)]),
      chroma_add = (\<lambda>vector_id v m. None),
      chroma_query = (\<lambda>q k w. Inr ([], [], [])),
      pinecone_upsert = (\<lambda>vector_id v m. None),
      pinecone_query = (\<lambda>q k f. Inr []),
      commit = (\<lambda>rows. True)\<rparr>"


text \<open>The same agent before anything was indexed.\<close>

definition empty_system :: "(unit, unit) system" where
  "empty_system =
     \<lparr>embedding_model = SentenceTransformer,
      vector_db = Faiss \<lparr>faiss_index = (), id_map = Map.empty, faiss_metadata = Map.empty\<rparr>,
      remote_vectors = [], chunk_table = []\<rparr>"

definition example_settings :: settings where
  "example_settings =
     \<lparr>settings_chunk_size = 512, settings_chunk_overlap = 50,
      settings_embedding_model = ''all-MiniLM-L6-v2''\<rparr>"


section \<open>Properties of the chunker\<close>

lemma chunk_loop_fuel_enough:
  "nat (py_len t - start) \<le> fuel \<Longrightarrow>
   chunk_loop_fuel fuel t cs ov start = Some (chunk_loop t cs ov start)"
proof (induction fuel arbitrary: start)
  case 0
  then show ?case by (simp add: chunk_loop.simps [of t cs ov start])
next
  case (Suc fuel)
  show ?case
  proof (cases "start < py_len t")
    case False
    then show ?thesis by (simp add: chunk_loop.simps [of t cs ov start])
  next
    case True
    let ?nxt = "max (start + 1) (chunk_end t cs start - ov)"
    have "nat (py_len t - ?nxt) \<le> fuel" using Suc.prems True by linarith
    then have "chunk_loop_fuel fuel t cs ov ?nxt = Some (chunk_loop t cs ov ?nxt)"
      by (rule Suc.IH)
    then show ?thesis using True
      by (simp add: chunk_loop.simps [of t cs ov start] Let_def)
  qed
qed

lemma chunk_spans_starts:
  "sorted_wrt (<) (map (\<lambda>x. fst (fst x)) (chunk_spans t cs ov start)) \<and>
   (\<forall>x \<in> set (chunk_spans t cs ov start). start \<le> fst (fst x))"
proof (induction t cs ov start rule: chunk_spans.induct)
  case (1 t cs ov start)
  show ?case
  proof (cases "start < py_len t")
    case False
    then show ?thesis by (simp add: chunk_spans.simps [of t cs ov start])
  next
    case True
    let ?nxt = "max (start + 1) (chunk_end t cs start - ov)"
    from 1 [OF True refl refl]
    have ih: "sorted_wrt (<) (map (\<lambda>x. fst (fst x)) (chunk_spans t cs ov ?nxt))"
      "\<forall>x \<in> set (chunk_spans t cs ov ?nxt). ?nxt \<le> fst (fst x)" by auto
    show ?thesis using True ih
      by (subst (1 2) chunk_spans.simps) (auto simp add: Let_def)
  qed
qed

lemma chunk_loop_spans:
  "map snd (filter (\<lambda>(span, chunk). chunk \<noteq> []) (chunk_spans t cs ov start))
     = chunk_loop t cs ov start"
proof (induction t cs ov start rule: chunk_spans.induct)
  case (1 t cs ov start)
  show ?case
  proof (cases "start < py_len t")
    case False
    then show ?thesis
      by (simp add: chunk_spans.simps [of t cs ov start] chunk_loop.simps [of t cs ov start])
  next
    case True
    from 1 [OF True refl refl] True show ?thesis
      by (simp add: chunk_spans.simps [of t cs ov start]
            chunk_loop.simps [of t cs ov start] Let_def)
  qed
qed

lemma chunk_end_gt: "1 \<le> cs \<Longrightarrow> start < chunk_end t cs start"
  by (simp add: chunk_end_def Let_def)

lemma py_strip_Nil: "py_strip s = [] \<longleftrightarrow> (\<forall>c \<in> set s. is_space c)"
proof
  assume "py_strip s = []"
  then have a: "\<forall>c \<in> set (dropWhile is_space s). is_space c"
    unfolding py_strip_def by (simp add: dropWhile_eq_Nil_conv)
  have "dropWhile is_space s = []"
  proof (rule ccontr)
    assume n: "dropWhile is_space s \<noteq> []"
    then have "\<not> is_space (hd (dropWhile is_space s))" by (rule hd_dropWhile)
    moreover have "hd (dropWhile is_space s) \<in> set (dropWhile is_space s)" using n by simp
    ultimately show False using a by blast
  qed
  then show "\<forall>c \<in> set s. is_space c" unfolding dropWhile_eq_Nil_conv .
next
  assume "\<forall>c \<in> set s. is_space c"
  then have d: "dropWhile is_space s = []" unfolding dropWhile_eq_Nil_conv .
  show "py_strip s = []" unfolding py_strip_def d by simp
qed

lemma py_slice_member:
  assumes "0 \<le> s" "s \<le> p" "p < e" "p < py_len t"
  shows "t ! nat p \<in> set (py_slice t s e)"
proof -
  let ?n = "py_len t"
  have s: "adjust_index ?n s = s" using assms by (simp add: adjust_index_def)
  have e: "p < adjust_index ?n e" using assms by (simp add: adjust_index_def)
  have sl: "py_slice t s e = take (nat (adjust_index ?n e - s)) (drop (nat s) t)"
    by (simp add: py_slice_def Let_def s)
  let ?k = "nat (p - s)"
  have k1: "?k < nat (adjust_index ?n e - s)" using assms e by linarith
  have k2: "nat s + ?k = nat p" using assms by linarith
  have k3: "?k < length (drop (nat s) t)" using assms by (simp add: py_len_def)
  have len: "?k < length (py_slice t s e)" using k1 k3 by (simp add: sl)
  have "py_slice t s e ! ?k = t ! nat p"
    using k1 k2 k3 assms by (simp add: sl py_len_def)
  then show ?thesis using len by (metis nth_mem)
qed

lemma chunk_spans_cover:
  "1 \<le> cs \<Longrightarrow> 0 \<le> ov \<Longrightarrow> 0 \<le> start \<Longrightarrow> start \<le> p \<Longrightarrow> p < py_len t \<Longrightarrow>
   covered (chunk_spans t cs ov start) p \<and>
   (\<not> is_space (t ! nat p) \<longrightarrow>
      covered (filter (\<lambda>(span, chunk). chunk \<noteq> []) (chunk_spans t cs ov start)) p)"
proof (induction t cs ov start rule: chunk_spans.induct)
  case (1 t cs ov start)
  let ?e = "chunk_end t cs start"
  let ?nxt = "max (start + 1) (?e - ov)"
  have lt: "start < py_len t" using "1.prems" by simp
  have gt: "start < ?e" using "1.prems" by (simp add: chunk_end_gt)
  have unf: "chunk_spans t cs ov start
      = ((start, ?e), py_strip (py_slice t start ?e)) # chunk_spans t cs ov ?nxt"
    using lt by (simp add: chunk_spans.simps [of t cs ov start] Let_def)
  show ?case
  proof (cases "p < ?e")
    case True
    have "\<not> is_space (t ! nat p) \<Longrightarrow> py_strip (py_slice t start ?e) \<noteq> []"
      using py_slice_member [of start p ?e t] "1.prems" True py_strip_Nil by blast
    then show ?thesis using True "1.prems" by (auto simp add: unf covered_def)
  next
    case False
    have "?nxt \<le> p" using False gt "1.prems" by simp
    moreover have "0 \<le> ?nxt" using "1.prems" by simp
    ultimately have "covered (chunk_spans t cs ov ?nxt) p \<and>
      (\<not> is_space (t ! nat p) \<longrightarrow>
        covered (filter (\<lambda>(span, chunk). chunk \<noteq> []) (chunk_spans t cs ov ?nxt)) p)"
      using "1.IH" [OF lt refl refl] "1.prems" by blast
    then show ?thesis by (auto simp add: unf covered_def)
  qed
qed




text \<open>
  Claim C4, as the code has it: for every text, every \<open>chunk_size \<ge> 1\<close> and every
  \<open>overlap \<ge> 0\<close>, every character position of the text lies inside the
  \<open>[start, end)\<close> span of at least one iteration of the walk; an iteration whose slice
  is all whitespace appends no chunk, so every position that holds a non-whitespace
  character lies inside the span of at least one returned chunk. The returned chunks are
  the chunks of the produced spans, in order.
\<close>

theorem chunk_text_coverage:
  assumes "1 \<le> chunk_size" "0 \<le> overlap" "p < length t"
  shows "covered (walked_spans t chunk_size overlap) (int p) \<and>
         (\<not> is_space (t ! p) \<longrightarrow> covered (produced_spans t chunk_size overlap) (int p)) \<and>
         map snd (produced_spans t chunk_size overlap) = chunk_text t chunk_size overlap"
proof (cases "t = [] \<or> py_len t \<le> chunk_size")
  case True
  then show ?thesis using assms
    by (auto simp add: walked_spans_def produced_spans_def covered_def chunk_text_def py_len_def)
next
  case False
  have "covered (chunk_spans t chunk_size overlap 0) (int p) \<and>
   (\<not> is_space (t ! nat (int p)) \<longrightarrow>
      covered (filter (\<lambda>(span, chunk). chunk \<noteq> []) (chunk_spans t chunk_size overlap 0)) (int p))"
    using assms by (intro chunk_spans_cover) (simp_all add: py_len_def)
  then show ?thesis using False
    by (simp add: walked_spans_def produced_spans_def chunk_text_def chunk_loop_spans)
qed

theorem chunk_text_coverage_witness:
  "(1::int) \<le> 3 \<and> (0::int) \<le> 0 \<and> 11 < length ''a          b''
   \<and> \<not> is_space (''a          b'' ! 11)
   \<and> covered (walked_spans ''a          b'' 3 0) 11
   \<and> covered (produced_spans ''a          b'' 3 0) 11"
proof -
  have h: "(11::nat) < length ''a          b''" by simp
  have ns: "\<not> is_space (''a          b'' ! 11)" by code_simp
  from chunk_text_coverage [of 3 0 11 "''a          b''"] h ns show ?thesis by simp
qed

text \<open>
  With \<open>chunk_size = 3\<close> and \<open>overlap = 0\<close> the text \<open>"a          b"\<close> yields the chunks
  \<open>"a"\<close> and \<open>"b"\<close> with spans \<open>[0, 2)\<close> and \<open>[10, 13)\<close>: position 5 lies in no returned
  chunk. With a negative overlap the walk itself skips characters: \<open>"abcdefgh"\<close> with
  \<open>chunk_size = 2\<close> and \<open>overlap = -2\<close> yields \<open>"ab"\<close> and \<open>"ef"\<close>.
\<close>

theorem chunk_text_gap:
  "\<not> covered (produced_spans ''a          b'' 3 0) 5
   \<and> \<not> covered (produced_spans ''abcdefgh'' 2 (- 2)) 2"
  by code_simp

text \<open>
  Claim C5: for every text, every \<open>chunk_size\<close> and every \<open>overlap\<close>, also
  \<open>overlap \<ge> chunk_size\<close>, \<open>chunk_text\<close> terminates: the start positions of
  successive iterations strictly increase, so \<open>len(text)\<close> iterations are always enough
  for the loop to finish, and the call returns a list of chunks.
\<close>

theorem chunk_text_terminates:
  "chunk_text_fuel (length t) t chunk_size overlap = Some (chunk_text t chunk_size overlap)
   \<and> sorted_wrt (<) (map (\<lambda>x. fst (fst x)) (walked_spans t chunk_size overlap))"
  by (simp add: chunk_text_fuel_def chunk_text_def chunk_loop_fuel_enough py_len_def
        walked_spans_def chunk_spans_starts)



section \<open>Properties of the embedding batches\<close>

lemma openai_batches_success:
  "openai_batches create texts idxs embeddings tr = (Inr vectors, trace) \<Longrightarrow>
     trace = tr @ concat (map (\<lambda>i. ApiCall (take batch_size (drop i texts))
                                   # (if length texts > batch_size then [Sleep] else [])) idxs)
   \<and> vectors = embeddings @ batch_results create (map (\<lambda>i. take batch_size (drop i texts)) idxs)
   \<and> (\<forall>i \<in> set idxs. \<exists>r. create (take batch_size (drop i texts)) = Inr r)"
proof (induction idxs arbitrary: embeddings tr)
  case Nil
  then show ?case by (simp add: batch_results_def)
next
  case (Cons i idxs)
  let ?b = "take batch_size (drop i texts)"
  from Cons.prems obtain r where r: "create ?b = Inr r"
    by (cases "create ?b") (simp_all add: Let_def)
  let ?tr = "tr @ [ApiCall ?b] @ (if length texts > batch_size then [Sleep] else [])"
  have "openai_batches create texts idxs (embeddings @ r) ?tr = (Inr vectors, trace)"
    using Cons.prems r by (simp add: Let_def)
  from Cons.IH [OF this] show ?case using r by (simp add: batch_results_def)
qed

lemma calls_trace:
  "calls (concat (map (\<lambda>batch. ApiCall batch # (if c then [Sleep] else [])) batches)) = batches"
  by (induction batches) (simp_all add: calls_def)

lemma concat_batches:
  "concat (map (\<lambda>j. take s (drop (j * s) xs)) [0 ..< m]) = take (m * s) xs"
proof (induction m)
  case 0
  show ?case by simp
next
  case (Suc m)
  have "take (m * s + s) xs = take (m * s) xs @ take s (drop (m * s) xs)"
    by (simp add: take_add)
  then show ?case using Suc by (simp add: add.commute)
qed

lemma batch_results_length:
  "\<forall>batch result. create batch = Inr result \<longrightarrow> length result = length batch \<Longrightarrow>
   \<forall>b \<in> set batches. \<exists>r. create b = Inr r \<Longrightarrow>
   length (batch_results create batches) = length (concat batches)"
  by (induction batches) (auto simp add: batch_results_def)

text \<open>
  Claim C6: for every list of \<open>n\<close> texts that the hosted-API backend embeds with batch
  size 100, exactly \<open>ceil(n/100)\<close> batch calls are issued, the batches are the
  consecutive slices \<open>texts[100j : 100j + 100]\<close> in order, the returned vectors are the
  in-order concatenation of the batch results (one vector per text when the API
  answers each batch with one vector per input), a pause follows every batch call when
  more than one batch is needed, and 150 texts yield exactly 2 calls of sizes 100 and 50.
\<close>

theorem generate_openai_embeddings_batches:
  assumes run: "generate_openai_embeddings create texts = (Inr vectors, trace)"
  shows "calls trace = map (\<lambda>j. take 100 (drop (j * 100) texts)) [0 ..< (length texts + 99) div 100]
       \<and> length (calls trace) = (length texts + 99) div 100
       \<and> concat (calls trace) = texts
       \<and> vectors = batch_results create (calls trace)
       \<and> ((\<forall>batch result. create batch = Inr result \<longrightarrow> length result = length batch)
            \<longrightarrow> length vectors = length texts)
       \<and> trace = concat (map (\<lambda>batch. ApiCall batch # (if length texts > 100 then [Sleep] else []))
                          (calls trace))
       \<and> (length texts = 150 \<longrightarrow> map length (calls trace) = [100, 50])"
proof -
  let ?k = "(length texts + 99) div 100"
  let ?B = "map (\<lambda>j. take 100 (drop (j * 100) texts)) [0 ..< ?k]"
  have rng: "py_range (length texts) batch_size = map (\<lambda>j. j * 100) [0 ..< ?k]"
    by (simp add: py_range_def batch_size_def add.commute)
  from run have "openai_batches create texts (map (\<lambda>j. j * 100) [0 ..< ?k]) [] [] = (Inr vectors, trace)"
    by (simp add: generate_openai_embeddings_def rng)
  from openai_batches_success [OF this]
  have tr: "trace = concat (map (\<lambda>batch. ApiCall batch # (if length texts > 100 then [Sleep] else [])) ?B)"
    and vec: "vectors = batch_results create ?B"
    and ok: "\<forall>b \<in> set ?B. \<exists>r. create b = Inr r"
    by (simp_all add: batch_size_def comp_def)
  have c: "calls trace = ?B" unfolding tr by (rule calls_trace)
  have cover: "concat ?B = texts"
  proof -
    have "length texts \<le> ?k * 100" by linarith
    then show ?thesis by (simp add: concat_batches)
  qed
  have len: "(\<forall>batch result. create batch = Inr result \<longrightarrow> length result = length batch)
            \<longrightarrow> length vectors = length texts"
    using batch_results_length [of create ?B] ok cover vec by metis
  have l150: "length texts = 150 \<longrightarrow> map length (calls trace) = [100, 50]"
  proof
    assume n: "length texts = 150"
    have "[0 ..< (150 + 99) div 100] = [0, Suc 0]" by (simp add: upt_rec)
    then show "map length (calls trace) = [100, 50]" unfolding c n using n by simp
  qed
  show ?thesis using c cover vec len tr l150 by simp
qed

theorem generate_openai_embeddings_batches_witness:
  "generate_openai_embeddings (\<lambda>batch. Inr (map length batch)) (replicate 150 ''a'')
     = (Inr (replicate 150 1),
        [ApiCall (replicate 100 ''a''), Sleep, ApiCall (replicate 50 ''a''), Sleep])
   \<and> length (replicate 150 ''a'') = 150
   \<and> map length (calls [ApiCall (replicate 100 ''a''), Sleep,
                         ApiCall (replicate 50 ''a''), Sleep]) = [100, 50]
   \<and> length (replicate 150 (1::nat)) = length (replicate 150 ''a'')"
proof -
  have run: "generate_openai_embeddings (\<lambda>batch. Inr (map length batch)) (replicate 150 ''a'')
     = (Inr (replicate 150 1),
        [ApiCall (replicate 100 ''a''), Sleep, ApiCall (replicate 50 ''a''), Sleep])"
    by (simp add: generate_openai_embeddings_def py_range_def batch_size_def upt_rec Let_def
          replicate_add [symmetric])
  have api: "\<forall>batch result. (Inr (map length batch) :: error + nat list) = Inr result
               \<longrightarrow> length result = length batch"
    by auto
  note th = generate_openai_embeddings_batches [OF run]
  have n: "length (replicate 150 ''a'') = 150" by simp
  note b = th [THEN conjunct2, THEN conjunct2, THEN conjunct2, THEN conjunct2, THEN conjunct2,
               THEN conjunct2, THEN mp, OF n]
  note c = th [THEN conjunct2, THEN conjunct2, THEN conjunct2, THEN conjunct2, THEN conjunct1,
               THEN mp, OF api]
  show ?thesis by (intro conjI) (rule run n b c)+
qed

section \<open>Properties of search and retrieval\<close>

lemma matches_filters_step:
  "matches_filters metadata ((k, v) # filters) \<longleftrightarrow>
     (\<exists>found. metadata k = Some found \<and>
        (case v of VList values \<Rightarrow> found \<in> set values | _ \<Rightarrow> found = v))
     \<and> matches_filters metadata filters"
  by (cases "metadata k"; cases v) auto

lemma matches_filters_all:
  "matches_filters metadata filters \<longleftrightarrow>
     (\<forall>(key, value) \<in> set filters.
        \<exists>found. metadata key = Some found \<and>
          (case value of VList values \<Rightarrow> found \<in> set values | _ \<Rightarrow> found = value))"
proof (induction filters)
  case Nil
  show ?case by simp
next
  case (Cons f filters)
  obtain k v where f: "f = (k, v)" by (cases f)
  show ?case unfolding f matches_filters_step Cons.IH by simp
qed

text \<open>
  Claim C7: for every metadata record and filter map, the filter match of the in-memory
  backend holds iff for every filtered key the key is present in the metadata and the
  metadata value is a member of the filter value when that is a list, and equal to it
  when it is a scalar; a record missing any filtered key never matches.
\<close>

theorem matches_filters_spec:
  "(matches_filters metadata filters \<longleftrightarrow>
      (\<forall>(key, value) \<in> set filters.
         \<exists>found. metadata key = Some found \<and>
           (case value of VList values \<Rightarrow> found \<in> set values | _ \<Rightarrow> found = value)))
   \<and> ((\<exists>(key, value) \<in> set filters. metadata key = None) \<longrightarrow>
        \<not> matches_filters metadata filters)"
  unfolding matches_filters_all by force

theorem matches_filters_spec_witness:
  "matches_filters [''category'' \<mapsto> VStr ''Tech'', ''language'' \<mapsto> VStr ''en'']
     [(''category'', VList [VStr ''Tech'', VStr ''Science'']), (''language'', VStr ''en'')]
   \<and> \<not> matches_filters [''category'' \<mapsto> VStr ''Tech'', ''language'' \<mapsto> VStr ''en'']
         [(''category'', VStr ''Tech''), (''author'', VStr ''Ada'')]"
proof -
  let ?m = "[''category'' \<mapsto> VStr ''Tech'', ''language'' \<mapsto> VStr ''en'']"
  have present: "\<forall>(key, value) \<in> set [(''category'', VList [VStr ''Tech'', VStr ''Science'']),
                                         (''language'', VStr ''en'')].
            \<exists>found. ?m key = Some found \<and>
              (case value of VList values \<Rightarrow> found \<in> set values | _ \<Rightarrow> found = value)"
    by simp
  have missing: "\<exists>(key, value) \<in> set [(''category'', VStr ''Tech''), (''author'', VStr ''Ada'')].
            ?m key = None"
    by simp
  from matches_filters_spec [of ?m "[(''category'', VList [VStr ''Tech'', VStr ''Science'']),
                                      (''language'', VStr ''en'')]"] present
  have a: "matches_filters ?m [(''category'', VList [VStr ''Tech'', VStr ''Science'']),
                               (''language'', VStr ''en'')]"
    by blast
  from matches_filters_spec [of ?m "[(''category'', VStr ''Tech''), (''author'', VStr ''Ada'')]"]
    missing
  have b: "\<not> matches_filters ?m [(''category'', VStr ''Tech''), (''author'', VStr ''Ada'')]"
    by blast
  from a b show ?thesis by blast
qed


lemma search_faiss_empty:
  "id_map db = Map.empty \<Longrightarrow>
   (\<exists>e. search_faiss lib db qv k f = Inl e) \<or> search_faiss lib db qv k f = Inr []"
  by (auto simp add: search_faiss_def split: sum.splits)

lemma search_chroma_empty:
  "\<forall>q k w. (case chroma_query lib q k w of
              Inl e \<Rightarrow> True
            | Inr (ids, distances, metadatas) \<Rightarrow> ids = []) \<Longrightarrow>
   (\<exists>e. search_chroma lib qv k f = Inl e) \<or> search_chroma lib qv k f = Inr []"
proof -
  assume a: "\<forall>q k w. (case chroma_query lib q k w of
              Inl e \<Rightarrow> True
            | Inr (ids, distances, metadatas) \<Rightarrow> ids = [])"
  let ?w = "case f of None \<Rightarrow> None
            | Some fs \<Rightarrow> if fs \<noteq> [] then Some (build_chroma_filter fs) else None"
  show ?thesis
  proof (cases "chroma_query lib qv k ?w")
    case (Inl e)
    then show ?thesis by (simp add: search_chroma_def)
  next
    case (Inr r)
    obtain ids distances metadatas where r: "r = (ids, distances, metadatas)" by (cases r)
    have "ids = []" using a [rule_format, of qv k ?w] Inr r by simp
    then show ?thesis using Inr r by (simp add: search_chroma_def)
  qed
qed

lemma search_pinecone_empty:
  "\<forall>q k f. (case pinecone_query lib q k f of Inl e \<Rightarrow> True | Inr matches \<Rightarrow> matches = []) \<Longrightarrow>
   (\<exists>e. search_pinecone lib qv k f = Inl e) \<or> search_pinecone lib qv k f = Inr []"
proof -
  assume a: "\<forall>q k f. (case pinecone_query lib q k f of Inl e \<Rightarrow> True | Inr matches \<Rightarrow> matches = [])"
  let ?w = "case f of None \<Rightarrow> None | Some fs \<Rightarrow> if fs \<noteq> [] then Some fs else None"
  show ?thesis using a [rule_format, of qv k ?w]
    by (cases "pinecone_query lib qv k ?w") (simp_all add: search_pinecone_def)
qed

text \<open>
  Claim C8: for every query and every \<open>k\<close>, searching a vector index that contains zero
  entries returns an empty result sequence; the search returns a list in every case,
  whatever the embedding backend and the index library do.
\<close>

theorem search_empty_index:
  "index_is_empty lib sys \<Longrightarrow> search_similar_content lib sys query limit filters = []"
proof -
  assume empty: "index_is_empty lib sys"
  have "(\<exists>e. search_attempt lib sys query limit filters = Inl e)
        \<or> search_attempt lib sys query limit filters = Inr []"
  proof (cases "generate_embeddings lib sys [query]")
    case (Inl e)
    then show ?thesis by (simp add: search_attempt_def)
  next
    case (Inr query_embedding)
    show ?thesis
    proof (cases query_embedding)
      case Nil
      then show ?thesis using Inr by (simp add: search_attempt_def)
    next
      case (Cons query_vector rest)
      show ?thesis
      proof (cases "vector_db sys")
        case (Faiss db)
        then have "id_map db = Map.empty" using empty by (simp add: index_is_empty_def)
        from search_faiss_empty [OF this, of lib query_vector limit filters]
        show ?thesis using Inr Cons Faiss by (simp add: search_attempt_def)
      next
        case Chroma
        then have "\<forall>q k w. (case chroma_query lib q k w of
              Inl e \<Rightarrow> True
            | Inr (ids, distances, metadatas) \<Rightarrow> ids = [])"
          using empty by (simp add: index_is_empty_def)
        from search_chroma_empty [OF this, of query_vector limit filters]
        show ?thesis using Inr Cons Chroma by (simp add: search_attempt_def)
      next
        case Pinecone
        then have "\<forall>q k f. (case pinecone_query lib q k f of
              Inl e \<Rightarrow> True | Inr matches \<Rightarrow> matches = [])"
          using empty by (simp add: index_is_empty_def)
        from search_pinecone_empty [OF this, of query_vector limit filters]
        show ?thesis using Inr Cons Pinecone by (simp add: search_attempt_def)
      next
        case NotInitialized
        then show ?thesis using Inr Cons by (simp add: search_attempt_def)
      qed
    qed
  qed
  then show ?thesis by (auto simp add: search_similar_content_def)
qed

theorem search_empty_index_witness:
  "index_is_empty (example_library\<lparr>faiss_search := (\<lambda>index q k. Inr [(0, - 1), (0, - 1)])\<rparr>)
     empty_system
   \<and> search_similar_content
       (example_library\<lparr>faiss_search := (\<lambda>index q k. Inr [(0, - 1), (0, - 1)])\<rparr>)
       empty_system ''climate'' 2 None = []"
proof -
  have h: "index_is_empty
             (example_library\<lparr>faiss_search := (\<lambda>index q k. Inr [(0, - 1), (0, - 1)])\<rparr>)
             empty_system"
    by (simp add: index_is_empty_def empty_system_def)
  from search_empty_index [OF h] h show ?thesis by simp
qed













section \<open>Properties of indexing\<close>

lemma process_content_item_mismatch:
  assumes "chunk_content cfg content_item \<noteq> []"
    and "generate_embeddings lib sys (map fst (chunk_content cfg content_item)) = Inr embeddings"
    and "length embeddings \<noteq> length (chunk_content cfg content_item)"
  shows "process_content_item lib cfg sys content_item = (False, sys, content_item)"
  using assms by (simp add: process_content_item_def Let_def)

lemma process_content_item_embedding_raises:
  assumes "chunk_content cfg content_item \<noteq> []"
    and "generate_embeddings lib sys (map fst (chunk_content cfg content_item)) = Inl e"
  shows "process_content_item lib cfg sys content_item
           = (False, sys, content_item\<lparr>processing_status := ''failed''\<rparr>)"
  using assms by (simp add: process_content_item_def Let_def)

text \<open>
  Claim C2 says that a content record whose chunk count differs from the number of
  returned embedding vectors is not indexed, that indexing returns false, and that the
  record's processing state is marked \<open>failed\<close>. On a record with one chunk and an
  embedding backend that returns no vector, the code stores nothing and returns false,
  and leaves the processing state \<open>processing\<close> as it found it; only the handler for an
  exception sets \<open>failed\<close>.
\<close>

theorem process_content_item_mismatch_keeps_status:
  "process_content_item (example_library\<lparr>st_encode := (\<lambda>texts. Inr [])\<rparr>)
     example_settings empty_system (example_item 7 ''hello world'')
     = (False, empty_system, example_item 7 ''hello world'')
   \<and> processing_status (example_item 7 ''hello world'') = ''processing''
   \<and> processing_status (example_item 7 ''hello world'') \<noteq> ''failed''"
proof -
  let ?lib = "example_library\<lparr>st_encode := (\<lambda>texts. Inr [])\<rparr>"
  have chunks: "map fst (chunk_content example_settings (example_item 7 ''hello world''))
                  = [''hello world'']"
    by code_simp
  then have ne: "chunk_content example_settings (example_item 7 ''hello world'') \<noteq> []"
    by auto
  have emb: "generate_embeddings ?lib empty_system
               (map fst (chunk_content example_settings (example_item 7 ''hello world'')))
             = Inr []"
    unfolding chunks
    by (simp add: generate_embeddings_def empty_system_def example_library_def)
  have len: "length ([] :: unit list)
               \<noteq> length (chunk_content example_settings (example_item 7 ''hello world''))"
    using ne by simp
  have r: "process_content_item ?lib example_settings empty_system
             (example_item 7 ''hello world'')
           = (False, empty_system, example_item 7 ''hello world'')"
    using ne emb len by (rule process_content_item_mismatch)
  have s: "processing_status (example_item 7 ''hello world'') = ''processing''"
    by (simp add: example_item_def)
  have f: "processing_status (example_item 7 ''hello world'') \<noteq> ''failed''"
    by (simp add: example_item_def)
  show ?thesis by (intro conjI) (rule r s f)+
qed

section \<open>Properties of preference updates\<close>

lemma apply_updates_result:
  assumes "distinct (map fst updates)"
    and "\<forall>key \<in> set (map fst updates). preferences key \<noteq> None \<longrightarrow> \<not> fails (SetAttr key)"
  shows "apply_updates fails preferences updates =
         Inr (\<lambda>key. if preferences key \<noteq> None
                     then (case map_of updates key of Some v \<Rightarrow> Some v | None \<Rightarrow> preferences key)
                     else None)"
  using assms
proof (induction updates arbitrary: preferences)
  case Nil
  then show ?case by (auto intro!: ext)
next
  case (Cons u updates)
  obtain key v where u: "u = (key, v)" by (cases u)
  show ?case
  proof (cases "preferences key \<noteq> None")
    case True
    have nf: "\<not> fails (SetAttr key)" using Cons.prems True u by simp
    have "apply_updates fails (preferences(key \<mapsto> v)) updates =
            Inr (\<lambda>k. if (preferences(key \<mapsto> v)) k \<noteq> None
                      then (case map_of updates k of
                              Some w \<Rightarrow> Some w
                            | None \<Rightarrow> (preferences(key \<mapsto> v)) k)
                      else None)"
      using Cons.prems u by (intro Cons.IH) auto
    moreover have "map_of updates key = None" using Cons.prems u
      by (simp add: map_of_eq_None_iff)
    ultimately show ?thesis using True nf u
      by (auto intro!: ext split: option.splits)
  next
    case False
    have "apply_updates fails preferences updates =
            Inr (\<lambda>k. if preferences k \<noteq> None
                      then (case map_of updates k of Some w \<Rightarrow> Some w | None \<Rightarrow> preferences k)
                      else None)"
      using Cons.prems u by (intro Cons.IH) auto
    then show ?thesis using False u by (auto intro!: ext split: option.splits)
  qed
qed

lemma apply_updates_fails:
  "\<exists>key \<in> set (map fst updates). preferences key \<noteq> None \<and> fails (SetAttr key) \<Longrightarrow>
   apply_updates fails preferences updates = Inl DatabaseError"
proof (induction updates arbitrary: preferences)
  case Nil
  then show ?case by simp
next
  case (Cons u updates)
  obtain key v where u: "u = (key, v)" by (cases u)
  show ?case
  proof (cases "preferences key \<noteq> None \<and> fails (SetAttr key)")
    case True
    then show ?thesis using u by simp
  next
    case False
    then obtain k where k: "k \<in> set (map fst updates)" "preferences k \<noteq> None" "fails (SetAttr k)"
      using Cons.prems u by auto
    show ?thesis
    proof (cases "preferences key \<noteq> None")
      case True
      have "apply_updates fails (preferences(key \<mapsto> v)) updates = Inl DatabaseError"
        using k by (intro Cons.IH) auto
      then show ?thesis using True False u by simp
    next
      case F: False
      have "apply_updates fails preferences updates = Inl DatabaseError"
        using k by (intro Cons.IH) auto
      then show ?thesis using F u by simp
    qed
  qed
qed

lemma list_ex_setattr:
  "list_ex (\<lambda>(key, v). preferences key \<noteq> None \<and> fails (SetAttr key)) updates \<longleftrightarrow>
   (\<exists>key \<in> set (map fst updates). preferences key \<noteq> None \<and> fails (SetAttr key))"
  by (induction updates) auto

text \<open>
  Claim C10: for every user who has a preference record, \<open>update_user_preferences\<close>
  applies exactly those entries of the update map whose keys name an attribute of the
  record, ignores every other key without error, and returns True also when no key
  matched; it returns False, leaving the table as it was, only when the user has no
  preference record or a database operation fails.
\<close>

theorem update_user_preferences_spec:
  assumes "distinct (map fst updates)"
  shows "update_user_preferences fails now table user_id updates =
           (case table user_id of
              None \<Rightarrow> (False, table)
            | Some preferences \<Rightarrow>
                if database_fails fails preferences updates then (False, table)
                else (True, table(user_id \<mapsto> expected_preferences preferences updates now)))"
proof (cases "table user_id")
  case None
  then show ?thesis by (simp add: update_user_preferences_def)
next
  case (Some preferences)
  show ?thesis
  proof (cases "fails Query")
    case True
    then show ?thesis using Some by (simp add: update_user_preferences_def database_fails_def)
  next
    case q: False
    show ?thesis
    proof (cases "\<exists>key \<in> set (map fst updates). preferences key \<noteq> None \<and> fails (SetAttr key)")
      case True
      then have "apply_updates fails preferences updates = Inl DatabaseError"
        by (rule apply_updates_fails)
      moreover have "database_fails fails preferences updates"
        using True unfolding database_fails_def list_ex_setattr by blast
      ultimately show ?thesis using Some q by (simp add: update_user_preferences_def)
    next
      case False
      then have nf: "\<forall>key \<in> set (map fst updates).
                       preferences key \<noteq> None \<longrightarrow> \<not> fails (SetAttr key)"
        by blast
      note r = apply_updates_result [OF assms nf]
      have e: "(\<lambda>key. if preferences key \<noteq> None
                       then (case map_of updates key of
                               Some v \<Rightarrow> Some v
                             | None \<Rightarrow> preferences key)
                       else None)(''updated_at'' \<mapsto> now)
               = expected_preferences preferences updates now"
        by (rule ext) (simp add: expected_preferences_def)
      have d: "database_fails fails preferences updates \<longleftrightarrow> fails Commit"
        using q False unfolding database_fails_def list_ex_setattr by blast
      show ?thesis using Some q r e d by (simp add: update_user_preferences_def)
    qed
  qed
qed

theorem update_user_preferences_spec_witness:
  "distinct (map fst [(''content_length'', ''short''), (''favourite_colour'', ''red'')])
   \<and> update_user_preferences (\<lambda>step. False) ''t1''
        [1 \<mapsto> [''content_length'' \<mapsto> ''medium'', ''updated_at'' \<mapsto> ''t0'']] 1
        [(''content_length'', ''short''), (''favourite_colour'', ''red'')]
     = (True,
        [1 \<mapsto> [''content_length'' \<mapsto> ''medium'', ''updated_at'' \<mapsto> ''t0'']]
          (1 \<mapsto> expected_preferences
                  [''content_length'' \<mapsto> ''medium'', ''updated_at'' \<mapsto> ''t0'']
                  [(''content_length'', ''short''), (''favourite_colour'', ''red'')] ''t1''))
   \<and> expected_preferences [''content_length'' \<mapsto> ''medium'', ''updated_at'' \<mapsto> ''t0'']
        [(''content_length'', ''short''), (''favourite_colour'', ''red'')] ''t1''
        ''content_length'' = Some ''short''
   \<and> expected_preferences [''content_length'' \<mapsto> ''medium'', ''updated_at'' \<mapsto> ''t0'']
        [(''content_length'', ''short''), (''favourite_colour'', ''red'')] ''t1''
        ''favourite_colour'' = None"
proof -
  let ?p = "[''content_length'' \<mapsto> ''medium'', ''updated_at'' \<mapsto> ''t0'']"
  let ?u = "[(''content_length'', ''short''), (''favourite_colour'', ''red'')]"
  have d: "distinct (map fst ?u)" by simp
  have nf: "\<not> database_fails (\<lambda>step. False) ?p ?u"
    by (simp add: database_fails_def)
  have r: "update_user_preferences (\<lambda>step. False) ''t1'' [1 \<mapsto> ?p] 1 ?u
           = (True, [1 \<mapsto> ?p](1 \<mapsto> expected_preferences ?p ?u ''t1''))"
    using update_user_preferences_spec [OF d, of "\<lambda>step. False" "''t1''" "[1 \<mapsto> ?p]" 1] nf
    by simp
  have a: "expected_preferences ?p ?u ''t1'' ''content_length'' = Some ''short''"
    by (simp add: expected_preferences_def)
  have b: "expected_preferences ?p ?u ''t1'' ''favourite_colour'' = None"
    by (simp add: expected_preferences_def)
  show ?thesis by (intro conjI) (rule d r a b)+
qed


end
